theory Spec2Isabelle
  imports Complex_Main "HOL-Library.Sublist"
begin

section \<open>LiquidityHunter: swing points, liquidation zones and the display filter\<close>

text \<open>
  The analytical core of \<^verbatim>\<open>app.py\<close>: \<^verbatim>\<open>find_swing_points\<close>,
  \<^verbatim>\<open>calculate_liquidation_zones\<close> and the \<^verbatim>\<open>range_mask\<close> filter of the main block.
  Prices are Python floats in the program; here they are real numbers, so every statement
  below is about the arithmetic the code writes down, without IEEE rounding, infinities
  or NaN.
\<close>

subsection \<open>Exceptions\<close>

datatype error = ValueError | ZeroDivisionError | IndexError

subsection \<open>The Python built-ins the code calls\<close>

text \<open>\<^verbatim>\<open>lev.replace('x', '')\<close>: every occurrence of the letter is removed.\<close>

definition replace_x :: "string \<Rightarrow> string" where
  "replace_x lev = filter (\<lambda>c. c \<noteq> CHR ''x'') lev"

text \<open>
  \<^verbatim>\<open>int(s)\<close> on a string, base ten: surrounding white space is dropped, one sign is
  allowed, then at least one digit follows, with single underscores allowed between
  digits; anything else raises \<^verbatim>\<open>ValueError\<close>. Characters are code points below 256;
  the interpreter's configurable cap on the number of digits is left out.
\<close>

definition py_isspace :: "char \<Rightarrow> bool" where
  "py_isspace c =
     (let n = (of_char c :: nat)
      in (9 \<le> n \<and> n \<le> 13) \<or> (28 \<le> n \<and> n \<le> 32) \<or> n = 133 \<or> n = 160)"

definition is_digit :: "char \<Rightarrow> bool" where
  "is_digit c = (48 \<le> (of_char c :: nat) \<and> (of_char c :: nat) \<le> 57)"

definition digit_val :: "char \<Rightarrow> int" where
  "digit_val c = int (of_char c) - 48"

fun parse_digits :: "string \<Rightarrow> bool \<Rightarrow> int \<Rightarrow> (int \<times> string) option" where
  "parse_digits [] prev_us acc = (if prev_us then None else Some (acc, []))"
| "parse_digits (c # cs) prev_us acc =
     (if is_digit c then parse_digits cs False (acc * 10 + digit_val c)
      else if c = CHR ''_'' then (if prev_us then None else parse_digits cs True acc)
      else if prev_us then None else Some (acc, c # cs))"

definition py_int :: "string \<Rightarrow> error + int" where
  "py_int s =
     (let t = dropWhile py_isspace s;
          sgn_rest = (case t of
                        [] \<Rightarrow> (1, t)
                      | c # cs \<Rightarrow> if c = CHR ''+'' then (1, cs)
                                 else if c = CHR ''-'' then (- 1, cs) else (1, t))
      in case snd sgn_rest of
           [] \<Rightarrow> Inl ValueError
         | c # cs \<Rightarrow>
             if \<not> is_digit c then Inl ValueError
             else (case parse_digits (c # cs) False 0 of
                     None \<Rightarrow> Inl ValueError
                   | Some (v, rest) \<Rightarrow>
                       if dropWhile py_isspace rest = [] then Inr (fst sgn_rest * v)
                       else Inl ValueError))"

text \<open>\<^verbatim>\<open>1 / lev_val\<close> on an integer: true division, \<^verbatim>\<open>ZeroDivisionError\<close> at zero.\<close>

definition py_truediv :: "int \<Rightarrow> int \<Rightarrow> error + real" where
  "py_truediv a b = (if b = 0 then Inl ZeroDivisionError else Inr (real_of_int a / real_of_int b))"

subsection \<open>The numpy and scipy calls of \<^verbatim>\<open>find_swing_points\<close>\<close>

text \<open>
  \<^verbatim>\<open>data.take(indices, mode='clip')\<close>: an index below zero reads the first element, an
  index past the end reads the last one. A non-empty take from an empty array raises
  \<^verbatim>\<open>IndexError\<close>.
\<close>

definition take_clip :: "real list \<Rightarrow> int list \<Rightarrow> error + real list" where
  "take_clip data indices =
     (if data = [] \<and> indices \<noteq> [] then Inl IndexError
      else Inr (map (\<lambda>i. data ! nat (max 0 (min i (int (length data) - 1)))) indices))"

definition any_true :: "bool list \<Rightarrow> bool" where
  "any_true results = list_ex (\<lambda>b. b) results"

definition and_arrays :: "bool list \<Rightarrow> bool list \<Rightarrow> bool list" where
  "and_arrays xs ys = map2 (\<lambda>a b. a \<and> b) xs ys"

definition compare_arrays :: "(real \<Rightarrow> real \<Rightarrow> bool) \<Rightarrow> real list \<Rightarrow> real list \<Rightarrow> bool list" where
  "compare_arrays comparator xs ys = map2 comparator xs ys"

text \<open>
  The loop of scipy's \<^verbatim>\<open>_boolrelextrema\<close> over \<^verbatim>\<open>shift in range(1, order + 1)\<close>,
  in the default \<^verbatim>\<open>mode='clip'\<close> that \<^verbatim>\<open>find_swing_points\<close> leaves in place: the main
  array is compared with itself shifted both ways, and the loop returns early once no
  candidate is left. An order below 1 raises \<^verbatim>\<open>ValueError\<close>.
\<close>

fun boolrelextrema_loop ::
  "(real \<Rightarrow> real \<Rightarrow> bool) \<Rightarrow> real list \<Rightarrow> real list \<Rightarrow> int list \<Rightarrow> int list \<Rightarrow> bool list
     \<Rightarrow> error + bool list" where
  "boolrelextrema_loop comparator data main locs [] results = Inr results"
| "boolrelextrema_loop comparator data main locs (shift # shifts) results =
     (case take_clip data (map (\<lambda>i. i + shift) locs) of
        Inl e \<Rightarrow> Inl e
      | Inr plus_vals \<Rightarrow>
          (case take_clip data (map (\<lambda>i. i - shift) locs) of
             Inl e \<Rightarrow> Inl e
           | Inr minus_vals \<Rightarrow>
               (let results1 = and_arrays results (compare_arrays comparator main plus_vals);
                    results2 = and_arrays results1 (compare_arrays comparator main minus_vals)
                in if \<not> any_true results2 then Inr results2
                   else boolrelextrema_loop comparator data main locs shifts results2)))"

definition boolrelextrema :: "real list \<Rightarrow> (real \<Rightarrow> real \<Rightarrow> bool) \<Rightarrow> int \<Rightarrow> error + bool list" where
  "boolrelextrema data comparator order =
     (if order < 1 then Inl ValueError
      else
        (let datalen = length data;
             locs = map int [0..<datalen];
             results = replicate datalen True
         in case take_clip data locs of
              Inl e \<Rightarrow> Inl e
            | Inr main \<Rightarrow> boolrelextrema_loop comparator data main locs [1..order] results))"

text \<open>\<^verbatim>\<open>argrelextrema(data, comparator, order=order)[0]\<close>: the positions that are set.\<close>

definition argrelextrema :: "real list \<Rightarrow> (real \<Rightarrow> real \<Rightarrow> bool) \<Rightarrow> int \<Rightarrow> error + nat list" where
  "argrelextrema data comparator order =
     (case boolrelextrema data comparator order of
        Inl e \<Rightarrow> Inl e
      | Inr results \<Rightarrow> Inr (filter (\<lambda>i. results ! i) [0..<length results]))"

definition greater_equal :: "real \<Rightarrow> real \<Rightarrow> bool" where
  "greater_equal a b = (a \<ge> b)"

definition less_equal :: "real \<Rightarrow> real \<Rightarrow> bool" where
  "less_equal a b = (a \<le> b)"

subsection \<open>The data frame\<close>

text \<open>
  One row of the market data after \<^verbatim>\<open>reset_index\<close> (the row label is its position),
  with the columns the analysis reads, and the same row with the two columns
  \<^verbatim>\<open>find_swing_points\<close> adds; a missing value (NaN in the column) is \<open>None\<close>.
\<close>

record bar =
  High :: real
  Low :: real
  Close :: real

record row = bar +
  Swing_High :: "real option"
  Swing_Low :: "real option"

text \<open>
  \<^verbatim>\<open>df[col] = df.iloc[positions][src]\<close>: the selected values keep their row labels, and
  the assignment aligns them with the frame, leaving the other rows missing.
\<close>

definition assign_at :: "nat \<Rightarrow> nat list \<Rightarrow> real list \<Rightarrow> real option list" where
  "assign_at n positions vals = map (\<lambda>i. map_of (zip positions vals) i) [0..<n]"

definition find_swing_points :: "bar list \<Rightarrow> int \<Rightarrow> error + row list" where
  "find_swing_points df order =
     (case argrelextrema (map High df) greater_equal order of
        Inl e \<Rightarrow> Inl e
      | Inr highs \<Rightarrow>
          (case argrelextrema (map Low df) less_equal order of
             Inl e \<Rightarrow> Inl e
           | Inr lows \<Rightarrow>
               (let swing_high = assign_at (length df) highs (map (\<lambda>i. High (df ! i)) highs);
                    swing_low = assign_at (length df) lows (map (\<lambda>i. Low (df ! i)) lows)
                in Inr (map (\<lambda>i. \<lparr>High = High (df ! i), Low = Low (df ! i), Close = Close (df ! i),
                                   Swing_High = swing_high ! i, Swing_Low = swing_low ! i\<rparr>)
                          [0..<length df]))))"

text \<open>\<^verbatim>\<open>df[col].dropna().values\<close>: the values that are present, in row order.\<close>

definition dropna :: "real option list \<Rightarrow> real list" where
  "dropna col = concat (map (\<lambda>v. case v of None \<Rightarrow> [] | Some x \<Rightarrow> [x]) col)"

subsection \<open>Liquidation zones\<close>

datatype zone_type = Long_Liq | Short_Liq

record zone =
  Price :: real
  Type :: zone_type
  Strength :: int

text \<open>\<^verbatim>\<open>lev_val = int(lev.replace('x', ''))\<close>\<close>

definition lev_val :: "string \<Rightarrow> error + int" where
  "lev_val lev = py_int (replace_x lev)"

text \<open>
  The body of both inner loops of \<^verbatim>\<open>calculate_liquidation_zones\<close>: parse the tier,
  project the price, build the record. The two loops differ in the sign and the tag only.
\<close>

definition liq_zone :: "zone_type \<Rightarrow> real \<Rightarrow> string \<Rightarrow> error + zone" where
  "liq_zone side price lev =
     (case lev_val lev of
        Inl e \<Rightarrow> Inl e
      | Inr v \<Rightarrow>
          (case py_truediv 1 v of
             Inl e \<Rightarrow> Inl e
           | Inr q \<Rightarrow>
               (let liq_price = (case side of
                                   Long_Liq \<Rightarrow> price - (price * q)
                                 | Short_Liq \<Rightarrow> price + (price * q))
                in Inr \<lparr>Price = liq_price, Type = side, Strength = v\<rparr>)))"

text \<open>\<^verbatim>\<open>for lev in leverages: ... zones.append(...)\<close>\<close>

fun tier_loop :: "zone_type \<Rightarrow> real \<Rightarrow> string list \<Rightarrow> zone list \<Rightarrow> error + zone list" where
  "tier_loop side price [] zones = Inr zones"
| "tier_loop side price (lev # leverages) zones =
     (case liq_zone side price lev of
        Inl e \<Rightarrow> Inl e
      | Inr z \<Rightarrow> tier_loop side price leverages (zones @ [z]))"

text \<open>\<^verbatim>\<open>for price in swing_lows: for lev in leverages: ...\<close>\<close>

fun swing_loop :: "zone_type \<Rightarrow> real list \<Rightarrow> string list \<Rightarrow> zone list \<Rightarrow> error + zone list" where
  "swing_loop side [] leverages zones = Inr zones"
| "swing_loop side (price # prices) leverages zones =
     (case tier_loop side price leverages zones of
        Inl e \<Rightarrow> Inl e
      | Inr zones' \<Rightarrow> swing_loop side prices leverages zones')"

definition calculate_liquidation_zones :: "row list \<Rightarrow> string list \<Rightarrow> error + zone list" where
  "calculate_liquidation_zones df leverages =
     (let swing_lows = dropna (map Swing_Low df)
      in case swing_loop Long_Liq swing_lows leverages [] of
           Inl e \<Rightarrow> Inl e
         | Inr zones \<Rightarrow>
             (let swing_highs = dropna (map Swing_High df)
              in swing_loop Short_Liq swing_highs leverages zones))"

subsection \<open>The display filter of the main block\<close>

text \<open>
  \<^verbatim>\<open>(liq_df['Price'] > current_price * 0.85) & (liq_df['Price'] < current_price * 1.15)\<close>,
  with the two ratios as parameters, then \<^verbatim>\<open>liq_df[range_mask]\<close>; an empty frame is
  passed through untouched.
\<close>

definition range_mask :: "zone list \<Rightarrow> real \<Rightarrow> real \<Rightarrow> real \<Rightarrow> bool list" where
  "range_mask liq_df current_price lower_ratio upper_ratio =
     and_arrays (map (\<lambda>p. p > current_price * lower_ratio) (map Price liq_df))
                (map (\<lambda>p. p < current_price * upper_ratio) (map Price liq_df))"

definition boolean_index :: "'a list \<Rightarrow> bool list \<Rightarrow> 'a list" where
  "boolean_index df selected = map fst (filter snd (zip df selected))"

definition filter_near_current :: "zone list \<Rightarrow> real \<Rightarrow> real \<Rightarrow> real \<Rightarrow> zone list" where
  "filter_near_current liq_df current_price lower_ratio upper_ratio =
     (if liq_df \<noteq> [] then boolean_index liq_df (range_mask liq_df current_price lower_ratio upper_ratio)
      else liq_df)"

definition liq_df_filtered :: "zone list \<Rightarrow> real \<Rightarrow> zone list" where
  "liq_df_filtered liq_df current_price = filter_near_current liq_df current_price (85 / 100) (115 / 100)"

subsection \<open>Reference notions used in the statements\<close>

text \<open>
  The tier a label stands for (zero when it has none), the projection formula as the
  specification writes it (\<open>price - price / leverage\<close>, \<open>price + price / leverage\<close>),
  and the zones of a list of swing prices in swing-major, tier-minor order.
\<close>

definition project :: "zone_type \<Rightarrow> real \<Rightarrow> int \<Rightarrow> real" where
  "project side price leverage =
     (case side of
        Long_Liq \<Rightarrow> price - price / real_of_int leverage
      | Short_Liq \<Rightarrow> price + price / real_of_int leverage)"

definition zone_of :: "zone_type \<Rightarrow> real \<Rightarrow> int \<Rightarrow> zone" where
  "zone_of side price leverage = \<lparr>Price = project side price leverage, Type = side, Strength = leverage\<rparr>"

definition tier_of :: "string \<Rightarrow> int" where
  "tier_of lev = (case lev_val lev of Inl e \<Rightarrow> 0 | Inr v \<Rightarrow> v)"

definition valid_tier :: "string \<Rightarrow> bool" where
  "valid_tier lev = (case lev_val lev of Inl e \<Rightarrow> False | Inr v \<Rightarrow> v \<noteq> 0)"

definition zones_for :: "zone_type \<Rightarrow> real list \<Rightarrow> string list \<Rightarrow> zone list" where
  "zones_for side prices leverages =
     concat (map (\<lambda>price. map (\<lambda>lev. zone_of side price (tier_of lev)) leverages) prices)"

text \<open>
  Reading a clipped position, the comparisons one bar goes through in the loop, and the
  specification's window: the bars at distance at most \<open>w\<close> that exist.
\<close>

definition clip_get :: "real list \<Rightarrow> int \<Rightarrow> real" where
  "clip_get data i = data ! nat (max 0 (min i (int (length data) - 1)))"

definition shifts_ok :: "(real \<Rightarrow> real \<Rightarrow> bool) \<Rightarrow> real list \<Rightarrow> int list \<Rightarrow> nat \<Rightarrow> bool" where
  "shifts_ok comparator data shifts i =
     (\<forall>s \<in> set shifts. comparator (data ! i) (clip_get data (int i + s)) \<and>
                        comparator (data ! i) (clip_get data (int i - s)))"

definition dominates :: "(real \<Rightarrow> real \<Rightarrow> bool) \<Rightarrow> real list \<Rightarrow> int \<Rightarrow> nat \<Rightarrow> bool" where
  "dominates comparator data w i =
     (\<forall>j \<in> {0..<length data}.
        int i - w \<le> int j \<and> int j \<le> int i + w \<longrightarrow> comparator (data ! i) (data ! j))"

definition is_swing_high :: "bar list \<Rightarrow> int \<Rightarrow> nat \<Rightarrow> bool" where
  "is_swing_high df w i =
     (\<forall>j \<in> {0..<length df}.
        int i - w \<le> int j \<and> int j \<le> int i + w \<longrightarrow> High (df ! i) \<ge> High (df ! j))"

definition is_swing_low :: "bar list \<Rightarrow> int \<Rightarrow> nat \<Rightarrow> bool" where
  "is_swing_low df w i =
     (\<forall>j \<in> {0..<length df}.
        int i - w \<le> int j \<and> int j \<le> int i + w \<longrightarrow> Low (df ! i) \<le> Low (df ! j))"

definition mark_row :: "bar list \<Rightarrow> int \<Rightarrow> nat \<Rightarrow> row" where
  "mark_row df w i =
     \<lparr>High = High (df ! i), Low = Low (df ! i), Close = Close (df ! i),
      Swing_High = (if is_swing_high df w i then Some (High (df ! i)) else None),
      Swing_Low = (if is_swing_low df w i then Some (Low (df ! i)) else None)\<rparr>"

section \<open>Properties\<close>

subsection \<open>Tiers and the projection\<close>


lemma liq_zone_cases:
  "liq_zone side price lev =
     (case lev_val lev of
        Inl e \<Rightarrow> Inl e
      | Inr v \<Rightarrow> if v = 0 then Inl ZeroDivisionError else Inr (zone_of side price v))"
  by (cases side)
     (simp_all add: liq_zone_def py_truediv_def zone_of_def project_def
        split: sum.splits)

lemma liq_zone_valid:
  "valid_tier lev \<Longrightarrow> liq_zone side price lev = Inr (zone_of side price (tier_of lev))"
  by (simp add: liq_zone_cases valid_tier_def tier_of_def split: sum.splits)

lemma liq_zone_Inr:
  "liq_zone side price lev = Inr z \<Longrightarrow> valid_tier lev \<and> z = zone_of side price (tier_of lev)"
  by (auto simp: liq_zone_cases valid_tier_def tier_of_def split: sum.splits if_splits)

lemma tier_loop_valid:
  "list_all valid_tier leverages \<Longrightarrow>
   tier_loop side price leverages zones =
     Inr (zones @ map (\<lambda>lev. zone_of side price (tier_of lev)) leverages)"
  by (induction leverages arbitrary: zones) (simp_all add: liq_zone_valid)

lemma tier_loop_Inr:
  "tier_loop side price leverages zones = Inr zs \<Longrightarrow>
   list_all valid_tier leverages \<and>
   zs = zones @ map (\<lambda>lev. zone_of side price (tier_of lev)) leverages"
proof (induction leverages arbitrary: zones)
  case Nil
  then show ?case by simp
next
  case (Cons lev leverages)
  then obtain z where z: "liq_zone side price lev = Inr z"
    and rest: "tier_loop side price leverages (zones @ [z]) = Inr zs"
    by (auto split: sum.splits)
  from liq_zone_Inr [OF z] Cons.IH [OF rest] show ?case by simp
qed

lemma swing_loop_valid:
  "list_all valid_tier leverages \<Longrightarrow>
   swing_loop side prices leverages zones = Inr (zones @ zones_for side prices leverages)"
  by (induction prices arbitrary: zones) (simp_all add: tier_loop_valid zones_for_def)

lemma swing_loop_Inr:
  "swing_loop side prices leverages zones = Inr zs \<Longrightarrow>
   (prices \<noteq> [] \<longrightarrow> list_all valid_tier leverages) \<and>
   zs = zones @ zones_for side prices leverages"
proof (induction prices arbitrary: zones)
  case Nil
  then show ?case by (simp add: zones_for_def)
next
  case (Cons price prices)
  then obtain zones' where inner: "tier_loop side price leverages zones = Inr zones'"
    and rest: "swing_loop side prices leverages zones' = Inr zs"
    by (auto split: sum.splits)
  from tier_loop_Inr [OF inner] Cons.IH [OF rest] show ?case
    by (simp add: zones_for_def)
qed

lemma length_zones_for:
  "length (zones_for side prices leverages) = length prices * length leverages"
  by (induction prices) (simp_all add: zones_for_def)

lemma Type_zones_for: "z \<in> set (zones_for side prices leverages) \<Longrightarrow> Type z = side"
  by (auto simp: zones_for_def zone_of_def)

lemma calculate_valid:
  "list_all valid_tier leverages \<Longrightarrow>
   calculate_liquidation_zones df leverages =
     Inr (zones_for Long_Liq (dropna (map Swing_Low df)) leverages @
          zones_for Short_Liq (dropna (map Swing_High df)) leverages)"
  by (simp add: calculate_liquidation_zones_def swing_loop_valid)

lemma calculate_Inr:
  "calculate_liquidation_zones df leverages = Inr zs \<Longrightarrow>
   zs = zones_for Long_Liq (dropna (map Swing_Low df)) leverages @
        zones_for Short_Liq (dropna (map Swing_High df)) leverages"
proof -
  assume a: "calculate_liquidation_zones df leverages = Inr zs"
  then obtain zones where l: "swing_loop Long_Liq (dropna (map Swing_Low df)) leverages [] = Inr zones"
    and s: "swing_loop Short_Liq (dropna (map Swing_High df)) leverages zones = Inr zs"
    by (auto simp: calculate_liquidation_zones_def Let_def split: sum.splits)
  from swing_loop_Inr [OF l] swing_loop_Inr [OF s] show ?thesis by simp
qed

lemma tier_labels:
  "lev_val ''10x'' = Inr 10" "lev_val ''25x'' = Inr 25"
  "lev_val ''50x'' = Inr 50" "lev_val ''100x'' = Inr 100"
  by (simp_all add: lev_val_def py_int_def replace_x_def is_digit_def digit_val_def py_isspace_def)

subsection \<open>Extrema detection\<close>

lemma take_clip_locs:
  "take_clip data (map f (map int [0..<length data])) =
     Inr (map (\<lambda>i. clip_get data (f (int i))) [0..<length data])"
  by (simp add: take_clip_def clip_get_def comp_def)

lemma take_clip_main: "take_clip data (map int [0..<length data]) = Inr data"
proof -
  have "map (\<lambda>i. data ! nat (max 0 (min (int i) (int (length data) - 1)))) [0..<length data] =
        map (\<lambda>i. data ! i) [0..<length data]"
    by (rule map_cong) (auto simp: min_def max_def)
  then show ?thesis
    by (simp add: take_clip_def comp_def map_nth)
qed

lemma and_compare:
  "length results = length data \<Longrightarrow>
   and_arrays results (compare_arrays comparator data (map g [0..<length data])) =
     map (\<lambda>i. results ! i \<and> comparator (data ! i) (g i)) [0..<length data]"
  by (rule nth_equalityI) (simp_all add: and_arrays_def compare_arrays_def)

lemma any_true_map: "any_true (map P [0..<n]) = (\<exists>i<n. P i)"
  by (auto simp: any_true_def list_ex_iff)

lemma loop_result:
  "length results = length data \<Longrightarrow>
   boolrelextrema_loop comparator data data (map int [0..<length data]) shifts results =
     Inr (map (\<lambda>i. results ! i \<and> shifts_ok comparator data shifts i) [0..<length data])"
proof (induction shifts arbitrary: results)
  case Nil
  have "map (\<lambda>i. results ! i) [0..<length results] = results"
    by (rule map_nth)
  with Nil show ?case
    by (simp add: shifts_ok_def)
next
  case (Cons s shifts)
  let ?n = "length data"
  let ?step = "\<lambda>i. comparator (data ! i) (clip_get data (int i + s)) \<and>
                    comparator (data ! i) (clip_get data (int i - s))"
  let ?r2 = "map (\<lambda>i. results ! i \<and> ?step i) [0..<?n]"
  have r1: "and_arrays results
              (compare_arrays comparator data (map (\<lambda>i. clip_get data (int i + s)) [0..<?n])) =
            map (\<lambda>i. results ! i \<and> comparator (data ! i) (clip_get data (int i + s))) [0..<?n]"
    using Cons.prems by (rule and_compare)
  have r2: "and_arrays
              (map (\<lambda>i. results ! i \<and> comparator (data ! i) (clip_get data (int i + s))) [0..<?n])
              (compare_arrays comparator data (map (\<lambda>i. clip_get data (int i - s)) [0..<?n])) = ?r2"
    by (rule nth_equalityI) (auto simp: and_arrays_def compare_arrays_def)
  have unfold: "boolrelextrema_loop comparator data data (map int [0..<?n]) (s # shifts) results =
      (if \<not> any_true ?r2 then Inr ?r2
       else boolrelextrema_loop comparator data data (map int [0..<?n]) shifts ?r2)"
  proof -
    have p: "take_clip data (map (\<lambda>i. i + s) (map int [0..<?n])) =
               Inr (map (\<lambda>i. clip_get data (int i + s)) [0..<?n])"
      by (rule take_clip_locs)
    have m: "take_clip data (map (\<lambda>i. i - s) (map int [0..<?n])) =
               Inr (map (\<lambda>i. clip_get data (int i - s)) [0..<?n])"
      by (rule take_clip_locs)
    show ?thesis
      by (simp only: boolrelextrema_loop.simps p m r1 r2 Let_def sum.case)
  qed
  have target: "map (\<lambda>i. results ! i \<and> shifts_ok comparator data (s # shifts) i) [0..<?n] =
                map (\<lambda>i. ?r2 ! i \<and> shifts_ok comparator data shifts i) [0..<?n]"
    by (rule map_cong) (auto simp: shifts_ok_def)
  show ?case
  proof (cases "any_true ?r2")
    case True
    have "length ?r2 = ?n" by simp
    from Cons.IH [OF this] True unfold target show ?thesis by simp
  next
    case False
    then have none: "\<forall>i<?n. \<not> (results ! i \<and> ?step i)"
      by (simp add: any_true_map)
    have "map (\<lambda>i. results ! i \<and> shifts_ok comparator data (s # shifts) i) [0..<?n] = ?r2"
      by (rule map_cong) (use none in \<open>auto simp: shifts_ok_def\<close>)
    with False unfold show ?thesis by simp
  qed
qed

lemma boolrelextrema_result:
  "1 \<le> order \<Longrightarrow>
   boolrelextrema data comparator order =
     Inr (map (\<lambda>i. shifts_ok comparator data [1..order] i) [0..<length data])"
  by (simp add: boolrelextrema_def Let_def take_clip_main loop_result)

lemma clip_get_in_range:
  "j < length data \<Longrightarrow> clip_get data (int j) = data ! j"
  by (simp add: clip_get_def min_def max_def)

lemma shifts_ok_iff_dominates:
  assumes i: "i < length data" and refl: "\<And>x. comparator x x"
  shows "shifts_ok comparator data [1..order] i = dominates comparator data order i"
proof
  assume ok: "shifts_ok comparator data [1..order] i"
  show "dominates comparator data order i"
    unfolding dominates_def
  proof (intro ballI impI)
    fix j assume "j \<in> {0..<length data}"
    then have j: "j < length data" by simp
    assume win: "int i - order \<le> int j \<and> int j \<le> int i + order"
    consider "j = i" | "i < j" | "j < i" by linarith
    then show "comparator (data ! i) (data ! j)"
    proof cases
      case 1
      then show ?thesis by (simp add: refl)
    next
      case 2
      with win have "int j - int i \<in> set [1..order]" by simp
      with ok have "comparator (data ! i) (clip_get data (int i + (int j - int i)))"
        unfolding shifts_ok_def by blast
      then show ?thesis using j by (simp add: clip_get_in_range)
    next
      case 3
      with win have "int i - int j \<in> set [1..order]" by simp
      with ok have "comparator (data ! i) (clip_get data (int i - (int i - int j)))"
        unfolding shifts_ok_def by blast
      then show ?thesis using j by (simp add: clip_get_in_range)
    qed
  qed
next
  assume dom: "dominates comparator data order i"
  show "shifts_ok comparator data [1..order] i"
    unfolding shifts_ok_def
  proof (intro ballI conjI)
    fix s assume "s \<in> set [1..order]"
    then have s: "1 \<le> s" "s \<le> order" by simp_all
    let ?up = "nat (max 0 (min (int i + s) (int (length data) - 1)))"
    let ?dn = "nat (max 0 (min (int i - s) (int (length data) - 1)))"
    have up: "?up < length data" "int i - order \<le> int ?up" "int ?up \<le> int i + order"
      using i s by (auto simp: min_def max_def)
    have dn: "?dn < length data" "int i - order \<le> int ?dn" "int ?dn \<le> int i + order"
      using i s by (auto simp: min_def max_def)
    from dom up show "comparator (data ! i) (clip_get data (int i + s))"
      unfolding dominates_def clip_get_def by simp
    from dom dn show "comparator (data ! i) (clip_get data (int i - s))"
      unfolding dominates_def clip_get_def by simp
  qed
qed

lemma argrelextrema_result:
  assumes "1 \<le> order" and "\<And>x. comparator x x"
  shows "argrelextrema data comparator order =
           Inr (filter (dominates comparator data order) [0..<length data])"
proof -
  have "filter (\<lambda>i. map (shifts_ok comparator data [1..order]) [0..<length data] ! i) [0..<length data] =
        filter (dominates comparator data order) [0..<length data]"
    by (rule filter_cong) (simp_all add: shifts_ok_iff_dominates assms(2))
  then show ?thesis
    using assms(1) by (simp add: argrelextrema_def boolrelextrema_result)
qed

lemma assign_at_filter:
  "i < n \<Longrightarrow>
   assign_at n (filter P [0..<n]) (map f (filter P [0..<n])) ! i = (if P i then Some (f i) else None)"
proof -
  assume i: "i < n"
  have "zip (filter P [0..<n]) (map f (filter P [0..<n])) = map (\<lambda>k. (k, f k)) (filter P [0..<n])"
    by (simp add: zip_map2 zip_same_conv_map)
  then have "map_of (zip (filter P [0..<n]) (map f (filter P [0..<n]))) i =
             (if P i then Some (f i) else None)"
    using i by (simp add: map_of_map_restrict restrict_map_def)
  with i show ?thesis by (simp add: assign_at_def)
qed

lemma is_swing_high_dominates:
  "i < length df \<Longrightarrow> dominates greater_equal (map High df) w i = is_swing_high df w i"
  by (auto simp: dominates_def is_swing_high_def greater_equal_def)

lemma is_swing_low_dominates:
  "i < length df \<Longrightarrow> dominates less_equal (map Low df) w i = is_swing_low df w i"
  by (auto simp: dominates_def is_swing_low_def less_equal_def)

lemma find_swing_points_result:
  assumes "1 \<le> order"
  shows "find_swing_points df order = Inr (map (mark_row df order) [0..<length df])"
proof -
  let ?n = "length df"
  let ?H = "dominates greater_equal (map High df) order"
  let ?L = "dominates less_equal (map Low df) order"
  have hs: "argrelextrema (map High df) greater_equal order = Inr (filter ?H [0..<?n])"
    using argrelextrema_result [OF assms, of greater_equal "map High df"]
    by (simp add: greater_equal_def)
  have ls: "argrelextrema (map Low df) less_equal order = Inr (filter ?L [0..<?n])"
    using argrelextrema_result [OF assms, of less_equal "map Low df"]
    by (simp add: less_equal_def)
  have rows: "map (\<lambda>i. \<lparr>High = High (df ! i), Low = Low (df ! i), Close = Close (df ! i),
                  Swing_High = assign_at ?n (filter ?H [0..<?n])
                                 (map (\<lambda>i. High (df ! i)) (filter ?H [0..<?n])) ! i,
                  Swing_Low = assign_at ?n (filter ?L [0..<?n])
                                 (map (\<lambda>i. Low (df ! i)) (filter ?L [0..<?n])) ! i\<rparr>) [0..<?n] =
              map (mark_row df order) [0..<?n]"
    by (rule map_cong)
       (simp_all add: assign_at_filter mark_row_def is_swing_high_dominates is_swing_low_dominates)
  show ?thesis
    by (simp only: find_swing_points_def hs ls sum.case Let_def rows)
qed






lemma mark_row_nth:
  "i < length df \<Longrightarrow>
   Swing_High (map (mark_row df w) [0..<length df] ! i) =
     (if is_swing_high df w i then Some (High (df ! i)) else None) \<and>
   Swing_Low (map (mark_row df w) [0..<length df] ! i) =
     (if is_swing_low df w i then Some (Low (df ! i)) else None)"
  by (simp add: mark_row_def)

lemma flat_run_swing_high:
  assumes range: "a \<le> i" "i < a + k" "a + k \<le> length df"
    and eq: "\<forall>i. a \<le> i \<and> i < a + k \<longrightarrow> High (df ! i) = High (df ! a)"
    and top: "\<forall>i j. a \<le> i \<and> i < a + k \<and> j < length df \<and>
                int i - w \<le> int j \<and> int j \<le> int i + w \<longrightarrow> High (df ! j) \<le> High (df ! a)"
  shows "is_swing_high df w i \<and> High (df ! i) = High (df ! a)"
proof -
  from eq range have same: "High (df ! i) = High (df ! a)" by blast
  have "High (df ! j) \<le> High (df ! i)"
    if "j < length df" "int i - w \<le> int j \<and> int j \<le> int i + w" for j
  proof -
    from top range(1,2) that have "High (df ! j) \<le> High (df ! a)" by blast
    with same show ?thesis by simp
  qed
  then have "is_swing_high df w i"
    unfolding is_swing_high_def by simp
  with same show ?thesis by blast
qed




subsection \<open>Zones of the aggregation\<close>


lemma nth_zones_for:
  "i < length prices \<Longrightarrow> k < length leverages \<Longrightarrow>
   zones_for side prices leverages ! (i * length leverages + k) =
     zone_of side (prices ! i) (tier_of (leverages ! k))"
proof (induction prices arbitrary: i)
  case Nil
  then show ?case by simp
next
  case (Cons price prices)
  have unfold: "zones_for side (price # prices) leverages =
          map (\<lambda>lev. zone_of side price (tier_of lev)) leverages @ zones_for side prices leverages"
    by (simp add: zones_for_def)
  show ?case
  proof (cases i)
    case 0
    with Cons.prems show ?thesis by (simp add: unfold nth_append)
  next
    case (Suc i')
    with Cons.prems have "i' < length prices" by simp
    from Cons.IH [OF this Cons.prems(2)] Suc show ?thesis
      by (simp add: unfold nth_append)
  qed
qed

lemma valid_tier_labels:
  "valid_tier ''10x''" "valid_tier ''25x''" "valid_tier ''50x''" "valid_tier ''100x''"
  by (simp_all add: valid_tier_def tier_labels)

lemma tier_of_labels:
  "tier_of ''10x'' = 10" "tier_of ''25x'' = 25" "tier_of ''50x'' = 50" "tier_of ''100x'' = 100"
  by (simp_all add: tier_of_def tier_labels)




subsection \<open>The display filter\<close>

lemma boolean_index_range_mask:
  "boolean_index Z (range_mask Z p a b) = filter (\<lambda>z. p * a < Price z \<and> Price z < p * b) Z"
  by (induction Z) (simp_all add: boolean_index_def range_mask_def and_arrays_def)

lemma filter_near_current_filter:
  "filter_near_current Z p a b = filter (\<lambda>z. p * a < Price z \<and> Price z < p * b) Z"
  by (simp add: filter_near_current_def boolean_index_range_mask)

section \<open>The claims\<close>

subsection \<open>Liquidation projector\<close>






subsection \<open>Zone aggregator\<close>






text \<open>
  Claim C10. The returned sequence is all the long zones followed by all the short zones;
  on each side the zones are grouped by swing in row order, and inside a group they follow
  the order of the tiers as passed: the zone of swing \<open>i\<close> and tier \<open>k\<close> sits at position
  \<open>i * number of tiers + k\<close> of its side.
\<close>

theorem zone_order:
  assumes "calculate_liquidation_zones df leverages = Inr zones"
  shows "zones = zones_for Long_Liq (dropna (map Swing_Low df)) leverages @
                 zones_for Short_Liq (dropna (map Swing_High df)) leverages \<and>
         (\<forall>i j. i < length zones \<and> j < length zones \<and>
                Type (zones ! i) = Long_Liq \<and> Type (zones ! j) = Short_Liq \<longrightarrow> i < j) \<and>
         (\<forall>i k. i < length (dropna (map Swing_Low df)) \<and> k < length leverages \<longrightarrow>
                zones ! (i * length leverages + k) =
                  zone_of Long_Liq (dropna (map Swing_Low df) ! i) (tier_of (leverages ! k))) \<and>
         (\<forall>i k. i < length (dropna (map Swing_High df)) \<and> k < length leverages \<longrightarrow>
                zones ! (length (dropna (map Swing_Low df)) * length leverages +
                         i * length leverages + k) =
                  zone_of Short_Liq (dropna (map Swing_High df) ! i) (tier_of (leverages ! k)))"
proof -
  let ?lows = "dropna (map Swing_Low df)" and ?highs = "dropna (map Swing_High df)"
  let ?longs = "zones_for Long_Liq ?lows leverages"
  let ?shorts = "zones_for Short_Liq ?highs leverages"
  have zones: "zones = ?longs @ ?shorts"
    using assms by (rule calculate_Inr)
  have len: "length ?longs = length ?lows * length leverages"
    by (rule length_zones_for)
  have sides: "i < j"
    if "i < length zones" "j < length zones"
       "Type (zones ! i) = Long_Liq" "Type (zones ! j) = Short_Liq" for i j
  proof -
    have "i < length ?longs"
    proof (rule ccontr)
      assume "\<not> i < length ?longs"
      with that(1) have "zones ! i \<in> set ?shorts"
        by (simp add: zones nth_append)
      from Type_zones_for [OF this] that(3) show False by simp
    qed
    moreover have "\<not> j < length ?longs"
    proof
      assume "j < length ?longs"
      then have "zones ! j \<in> set ?longs"
        by (simp add: zones nth_append)
      from Type_zones_for [OF this] that(4) show False by simp
    qed
    ultimately show ?thesis by simp
  qed
  have longs: "zones ! (i * length leverages + k) = zone_of Long_Liq (?lows ! i) (tier_of (leverages ! k))"
    if "i < length ?lows" "k < length leverages" for i k
  proof -
    have "i * length leverages + k < Suc i * length leverages"
      using that(2) by simp
    also have "\<dots> \<le> length ?lows * length leverages"
      using that(1) by (intro mult_le_mono1) simp
    finally have "i * length leverages + k < length ?longs"
      by (simp add: len)
    then show ?thesis
      by (simp add: zones nth_append nth_zones_for [OF that])
  qed
  have shorts: "zones ! (length ?lows * length leverages + i * length leverages + k) =
                  zone_of Short_Liq (?highs ! i) (tier_of (leverages ! k))"
    if "i < length ?highs" "k < length leverages" for i k
  proof -
    have "zones ! (length ?longs + (i * length leverages + k)) =
            ?shorts ! (i * length leverages + k)"
      unfolding zones by (rule nth_append_length_plus)
    then show ?thesis
      by (simp add: len nth_zones_for [OF that] add.assoc)
  qed
  from zones sides longs shorts show ?thesis by blast
qed

text \<open>Two Low swings, one High swing, tiers passed as \<^verbatim>\<open>50x\<close> then \<^verbatim>\<open>10x\<close>.\<close>

theorem zone_order_witness:
  "calculate_liquidation_zones
     [\<lparr>High = 100, Low = 90, Close = 95, Swing_High = Some 100, Swing_Low = Some 90\<rparr>,
      \<lparr>High = 50, Low = 40, Close = 45, Swing_High = None, Swing_Low = Some 40\<rparr>]
     [''50x'', ''10x''] =
     Inr [\<lparr>Price = 441 / 5, Type = Long_Liq, Strength = 50\<rparr>,
          \<lparr>Price = 81, Type = Long_Liq, Strength = 10\<rparr>,
          \<lparr>Price = 196 / 5, Type = Long_Liq, Strength = 50\<rparr>,
          \<lparr>Price = 36, Type = Long_Liq, Strength = 10\<rparr>,
          \<lparr>Price = 102, Type = Short_Liq, Strength = 50\<rparr>,
          \<lparr>Price = 110, Type = Short_Liq, Strength = 10\<rparr>]"
proof -
  let ?df = "[\<lparr>High = 100, Low = 90, Close = 95, Swing_High = Some 100, Swing_Low = Some 90\<rparr>,
      \<lparr>High = 50, Low = 40, Close = 45, Swing_High = None, Swing_Low = Some 40\<rparr>]"
  have v: "list_all valid_tier [''50x'', ''10x'']"
    by (simp add: valid_tier_labels)
  from calculate_valid [OF v, of ?df] obtain zones where
    run: "calculate_liquidation_zones ?df [''50x'', ''10x''] = Inr zones" by blast
  from zone_order [OF run] have
    "zones = zones_for Long_Liq (dropna (map Swing_Low ?df)) [''50x'', ''10x''] @
             zones_for Short_Liq (dropna (map Swing_High ?df)) [''50x'', ''10x'']" by blast
  then have "zones =
     [\<lparr>Price = 441 / 5, Type = Long_Liq, Strength = 50\<rparr>,
      \<lparr>Price = 81, Type = Long_Liq, Strength = 10\<rparr>,
      \<lparr>Price = 196 / 5, Type = Long_Liq, Strength = 50\<rparr>,
      \<lparr>Price = 36, Type = Long_Liq, Strength = 10\<rparr>,
      \<lparr>Price = 102, Type = Short_Liq, Strength = 50\<rparr>,
      \<lparr>Price = 110, Type = Short_Liq, Strength = 10\<rparr>]"
    by (simp add: dropna_def zones_for_def zone_of_def project_def tier_of_labels)
  with run show ?thesis by simp
qed

subsection \<open>Extrema detector\<close>

text \<open>
  Claim C2. For a window of at least 1, the detection returns, and row \<open>i\<close> carries a
  High marker exactly when its high is greater than or equal to the high of every existing
  bar at distance at most \<open>w\<close> (a bar near an edge is compared with the bars that exist),
  and a Low marker exactly when its low is less than or equal to their lows. A run of
  \<open>k\<close> bars with one common high that no bar within their windows exceeds carries
  \<open>k\<close> High markers.
\<close>

theorem swing_points_window:
  assumes "1 \<le> w"
  shows "\<exists>rows. find_swing_points df w = Inr rows \<and> length rows = length df \<and>
           (\<forall>i < length df.
              Swing_High (rows ! i) =
                (if is_swing_high df w i then Some (High (df ! i)) else None) \<and>
              Swing_Low (rows ! i) =
                (if is_swing_low df w i then Some (Low (df ! i)) else None)) \<and>
           (\<forall>a k. a + k \<le> length df \<and>
                  (\<forall>i. a \<le> i \<and> i < a + k \<longrightarrow> High (df ! i) = High (df ! a)) \<and>
                  (\<forall>i j. a \<le> i \<and> i < a + k \<and> j < length df \<and>
                         int i - w \<le> int j \<and> int j \<le> int i + w \<longrightarrow>
                         High (df ! j) \<le> High (df ! a)) \<longrightarrow>
                  length (filter (\<lambda>i. Swing_High (rows ! i) = Some (High (df ! a))) [a..<a + k]) = k)"
proof (intro exI conjI allI impI)
  let ?rows = "map (mark_row df w) [0..<length df]"
  show "find_swing_points df w = Inr ?rows"
    using assms by (rule find_swing_points_result)
  show "length ?rows = length df" by simp
  show "Swing_High (?rows ! i) = (if is_swing_high df w i then Some (High (df ! i)) else None)"
    if "i < length df" for i
    using mark_row_nth [OF that] by blast
  show "Swing_Low (?rows ! i) = (if is_swing_low df w i then Some (Low (df ! i)) else None)"
    if "i < length df" for i
    using mark_row_nth [OF that] by blast
  show "length (filter (\<lambda>i. Swing_High (?rows ! i) = Some (High (df ! a))) [a..<a + k]) = k"
    if run: "a + k \<le> length df \<and>
         (\<forall>i. a \<le> i \<and> i < a + k \<longrightarrow> High (df ! i) = High (df ! a)) \<and>
         (\<forall>i j. a \<le> i \<and> i < a + k \<and> j < length df \<and>
                int i - w \<le> int j \<and> int j \<le> int i + w \<longrightarrow> High (df ! j) \<le> High (df ! a))"
    for a k
  proof -
    from run have le: "a + k \<le> length df"
      and eq: "\<forall>i. a \<le> i \<and> i < a + k \<longrightarrow> High (df ! i) = High (df ! a)"
      and top: "\<forall>i j. a \<le> i \<and> i < a + k \<and> j < length df \<and>
                  int i - w \<le> int j \<and> int j \<le> int i + w \<longrightarrow> High (df ! j) \<le> High (df ! a)"
      by blast+
    have "Swing_High (?rows ! i) = Some (High (df ! a))" if "i \<in> set [a..<a + k]" for i
    proof -
      from that le have range: "a \<le> i" "i < a + k" and i: "i < length df" by simp_all
      from flat_run_swing_high [OF range le eq top] mark_row_nth [OF i, of w]
      show ?thesis by simp
    qed
    then have "filter (\<lambda>i. Swing_High (?rows ! i) = Some (High (df ! a))) [a..<a + k] = [a..<a + k]"
      by (simp only: filter_id_conv) blast
    then show ?thesis by simp
  qed
qed

text \<open>Highs 1, 3, 3, 3, 1 with window 1: the three middle bars are all marked.\<close>

theorem swing_points_window_witness:
  "(1::int) \<le> 1 \<and>
   (\<exists>rows. find_swing_points
       [\<lparr>High = 1, Low = 0, Close = 1\<rparr>, \<lparr>High = 3, Low = 2, Close = 3\<rparr>,
        \<lparr>High = 3, Low = 2, Close = 3\<rparr>, \<lparr>High = 3, Low = 2, Close = 3\<rparr>,
        \<lparr>High = 1, Low = 0, Close = 1\<rparr>] 1 = Inr rows \<and>
      Swing_High (rows ! 0) = None \<and> Swing_High (rows ! 1) = Some 3 \<and>
      Swing_High (rows ! 2) = Some 3 \<and> Swing_High (rows ! 3) = Some 3 \<and>
      Swing_High (rows ! 4) = None \<and> Swing_Low (rows ! 0) = Some 0 \<and>
      Swing_Low (rows ! 2) = Some 2)"
proof -
  let ?df = "[\<lparr>High = 1, Low = 0, Close = 1\<rparr>, \<lparr>High = 3, Low = 2, Close = 3\<rparr>,
        \<lparr>High = 3, Low = 2, Close = 3\<rparr>, \<lparr>High = 3, Low = 2, Close = 3\<rparr>,
        \<lparr>High = 1, Low = 0, Close = 1\<rparr>]"
  have w: "(1::int) \<le> 1" by simp
  from swing_points_window [OF w, of ?df] obtain rows where
    run: "find_swing_points ?df 1 = Inr rows" and
    marks: "\<forall>i < length ?df.
              Swing_High (rows ! i) =
                (if is_swing_high ?df 1 i then Some (High (?df ! i)) else None) \<and>
              Swing_Low (rows ! i) =
                (if is_swing_low ?df 1 i then Some (Low (?df ! i)) else None)"
    by blast
  have h0: "\<not> is_swing_high ?df 1 0" and h1: "is_swing_high ?df 1 1"
    and h2: "is_swing_high ?df 1 2" and h3: "is_swing_high ?df 1 3"
    and h4: "\<not> is_swing_high ?df 1 4"
    by (simp_all add: is_swing_high_def atLeastLessThanSuc eval_nat_numeral)
  have l0: "is_swing_low ?df 1 0" and l2: "is_swing_low ?df 1 2"
    by (simp_all add: is_swing_low_def atLeastLessThanSuc eval_nat_numeral)
  from marks have m: "Swing_High (rows ! i) =
                (if is_swing_high ?df 1 i then Some (High (?df ! i)) else None) \<and>
              Swing_Low (rows ! i) =
                (if is_swing_low ?df 1 i then Some (Low (?df ! i)) else None)"
    if "i < 5" for i
    using that by simp
  from m [of 0] m [of 1] m [of 2] m [of 3] m [of 4] h0 h1 h2 h3 h4 l0 l2
  have "Swing_High (rows ! 0) = None \<and> Swing_High (rows ! 1) = Some 3 \<and>
      Swing_High (rows ! 2) = Some 3 \<and> Swing_High (rows ! 3) = Some 3 \<and>
      Swing_High (rows ! 4) = None \<and> Swing_Low (rows ! 0) = Some 0 \<and>
      Swing_Low (rows ! 2) = Some 2"
    by simp
  with run w show ?thesis by blast
qed




subsection \<open>Display filter\<close>



text \<open>Claim C6. Filtering twice with the same arguments is filtering once.\<close>

theorem filter_near_current_idempotent:
  "filter_near_current (filter_near_current Z p a b) p a b = filter_near_current Z p a b"
  by (simp add: filter_near_current_filter)

subsection \<open>Empty inputs\<close>

text \<open>
  Claim C9. Nothing in, nothing out, and no exception: no bars give no rows, no swing
  markers or no tiers give no zones, and no zones give no filtered zones.
\<close>

theorem empty_input_closure:
  "(1 \<le> order \<longrightarrow> find_swing_points [] order = Inr []) \<and>
   calculate_liquidation_zones [] leverages = Inr [] \<and>
   (dropna (map Swing_Low df) = [] \<and> dropna (map Swing_High df) = [] \<longrightarrow>
      calculate_liquidation_zones df leverages = Inr []) \<and>
   calculate_liquidation_zones df [] = Inr [] \<and>
   filter_near_current [] p a b = [] \<and>
   liq_df_filtered [] p = []"
proof -
  have swings: "1 \<le> order \<longrightarrow> find_swing_points [] order = Inr []"
    by (simp add: find_swing_points_result)
  have no_rows: "calculate_liquidation_zones [] leverages = Inr []"
    by (simp add: calculate_liquidation_zones_def dropna_def)
  have no_swings: "dropna (map Swing_Low df) = [] \<and> dropna (map Swing_High df) = [] \<longrightarrow>
      calculate_liquidation_zones df leverages = Inr []"
    by (simp add: calculate_liquidation_zones_def)
  have no_tiers: "calculate_liquidation_zones df [] = Inr []"
    using calculate_valid [of "[]" df] by (simp add: zones_for_def)
  have no_zones: "filter_near_current [] p a b = []" "liq_df_filtered [] p = []"
    by (simp_all add: filter_near_current_def liq_df_filtered_def)
  from swings no_rows no_swings no_tiers no_zones show ?thesis by blast
qed

text \<open>The default window and the default tiers on empty inputs.\<close>

theorem empty_input_closure_witness:
  "find_swing_points [] 5 = Inr [] \<and>
   calculate_liquidation_zones [] [''25x'', ''50x''] = Inr [] \<and>
   calculate_liquidation_zones
     [\<lparr>High = 2, Low = 1, Close = 1, Swing_High = None, Swing_Low = None\<rparr>] [''25x''] = Inr [] \<and>
   calculate_liquidation_zones
     [\<lparr>High = 2, Low = 1, Close = 1, Swing_High = Some 2, Swing_Low = Some 1\<rparr>] [] = Inr [] \<and>
   liq_df_filtered [] 95 = []"
  using empty_input_closure [of 5 "[''25x'', ''50x'']"
          "[\<lparr>High = 2, Low = 1, Close = 1, Swing_High = None, Swing_Low = None\<rparr>]" 95]
        empty_input_closure [of 5 "[''25x'']"
          "[\<lparr>High = 2, Low = 1, Close = 1, Swing_High = None, Swing_Low = None\<rparr>]"]
        empty_input_closure [of 5 "[]"
          "[\<lparr>High = 2, Low = 1, Close = 1, Swing_High = Some 2, Swing_Low = Some 1\<rparr>]"]
  by (simp add: dropna_def)

end
